theory Spec2Isabelle
  imports Complex_Main "HOL-Library.Word"
begin

unbundle bit_operations_syntax

section \<open>Errors\<close>

text \<open>
  Every \<open>throw\<close> of the sources is a value of this type.  The first group are the
  \<open>XnbError\<close>s of the repository (one constructor for each message), the second group
  are the errors raised by the JavaScript runtime itself: Node's \<open>ERR_OUT_OF_RANGE\<close>
  and \<open>ERR_BUFFER_OUT_OF_BOUNDS\<close> of the \<open>Buffer\<close> accessors, the \<open>RangeError\<close> of
  \<open>TypedArray.prototype.set\<close>, and the \<open>TypeError\<close> of a property access on \<open>undefined\<close>.
\<close>

datatype error =
    BufferSeekOutOfBounds nat nat   \<comment> \<open>\<open>Buffer seek out of bounds! pos len\<close>\<close>
  | InvalidReaderIndex int          \<comment> \<open>\<open>Invalid reader index i\<close>\<close>
  | ReaderTypeMismatch              \<comment> \<open>\<open>Expected reader a, found b\<close>\<close>
  | InvalidMagic                    \<comment> \<open>\<open>Invalid file magic found, expecting 'XNB' ...\<close>\<close>
  | InvalidSize                     \<comment> \<open>\<open>Invalid size read in compression content.\<close>\<close>
  | ERR_OUT_OF_RANGE string int     \<comment> \<open>Node: the named argument is out of range; the value received\<close>
  | ERR_BUFFER_OUT_OF_BOUNDS        \<comment> \<open>Node: the buffer is too short for the access at any offset\<close>
  | RangeError                      \<comment> \<open>\<open>set\<close>: the source does not fit at the offset\<close>
  | TypeError                       \<comment> \<open>property read on \<open>undefined\<close>\<close>

section \<open>Numbers of JavaScript used as 32-bit integers\<close>

text \<open>
  The bitwise operators of JavaScript convert their operands with \<open>ToInt32\<close> and give a
  signed 32-bit result.  Integer-valued numbers are modelled as \<open>int\<close>; \<open>AND\<close>,
  \<open>OR\<close> and \<open>drop_bit\<close> on \<open>int\<close> are the two's complement operations.
\<close>

definition ToInt32 :: "int \<Rightarrow> int" where
  "ToInt32 n = (n + 2 ^ 31) mod 2 ^ 32 - 2 ^ 31"

text \<open>\<open>a & b\<close>, \<open>a | b\<close>, \<open>a >> b\<close> and \<open>a << b\<close>; a shift count is taken modulo 32.\<close>

definition js_and :: "int \<Rightarrow> int \<Rightarrow> int" where
  "js_and a b = ToInt32 a AND ToInt32 b"

definition js_or :: "int \<Rightarrow> int \<Rightarrow> int" where
  "js_or a b = ToInt32 a OR ToInt32 b"

definition js_shr :: "int \<Rightarrow> int \<Rightarrow> int" where
  "js_shr a b = drop_bit (nat (b mod 32)) (ToInt32 a)"

definition js_shl :: "int \<Rightarrow> int \<Rightarrow> int" where
  "js_shl a b = ToInt32 (push_bit (nat (b mod 32)) (ToInt32 a))"

section \<open>Binary: a buffer and a byte position\<close>

type_synonym byte = "8 word"

text \<open>
  \<open>Binary.ts\<close>: the base class of reader and writer holds \<open>_buffer\<close> and
  \<open>_bytePosition\<close>.  A byte position is never negative in the functions modelled here.
\<close>

record Binary =
  buffer :: "byte list"
  bytePosition :: nat

subsection \<open>BinaryWriter\<close>

text \<open>\<open>new BinaryWriter(size)\<close>: \<open>Buffer.alloc(size)\<close> is zero-filled; the default size is 0.\<close>

definition BinaryWriter :: "nat \<Rightarrow> Binary" where
  "BinaryWriter sz = \<lparr>buffer = replicate sz 0, bytePosition = 0\<rparr>"

text \<open>\<open>trim\<close>: the buffer is cut to the byte position.\<close>

definition trim :: "'a Binary_scheme \<Rightarrow> 'a Binary_scheme" where
  "trim w = w\<lparr>buffer := take (bytePosition w) (buffer w)\<rparr>"

text \<open>
  \<open>alloc(bytes)\<close>: when \<open>buffer.length <= bytePosition + bytes\<close> the buffer is replaced by
  a zero-filled one of \<open>buffer.length + bytes\<close> bytes holding the old contents.
\<close>

definition alloc :: "nat \<Rightarrow> 'a Binary_scheme \<Rightarrow> 'a Binary_scheme" where
  "alloc bytes w =
     (if length (buffer w) \<le> bytePosition w + bytes
      then w\<lparr>buffer := buffer w @ replicate bytes 0\<rparr>
      else w)"

text \<open>
  Node's \<open>boundsError(value, length)\<close> for an integer offset \<open>value\<close> that is not inside the
  buffer; \<open>length\<close> is the greatest valid offset, negative when the buffer is too short for
  the access at any offset.
\<close>

definition boundsError :: "nat \<Rightarrow> int \<Rightarrow> error" where
  "boundsError v len =
     (if len < 0 then ERR_BUFFER_OUT_OF_BOUNDS else ERR_OUT_OF_RANGE ''offset'' (int v))"

text \<open>
  Node's \<open>buf.writeUInt8(value, offset)\<close>: the value must lie in \<open>[0, 255]\<close> and the offset
  inside the buffer, otherwise \<open>ERR_OUT_OF_RANGE\<close> is thrown (the value is checked first).
\<close>

definition writeUInt8 :: "int \<Rightarrow> nat \<Rightarrow> byte list \<Rightarrow> error + byte list" where
  "writeUInt8 v offset buf =
     (if v < 0 \<or> 255 < v then Inl (ERR_OUT_OF_RANGE ''value'' v)
      else if length buf \<le> offset then Inl (boundsError offset (int (length buf) - 1))
      else Inr (buf[offset := word_of_int v]))"

text \<open>\<open>writeByte(value)\<close>: \<open>this.alloc(1).buffer.writeUInt8(value, pos); pos++\<close>.\<close>

definition writeByte :: "int \<Rightarrow> 'a Binary_scheme \<Rightarrow> error + 'a Binary_scheme" where
  "writeByte v w =
     (let w1 = alloc 1 w in
      case writeUInt8 v (bytePosition w1) (buffer w1) of
        Inl e \<Rightarrow> Inl e
      | Inr buf \<Rightarrow> Inr (w1\<lparr>buffer := buf, bytePosition := bytePosition w1 + 1\<rparr>))"

text \<open>
  \<open>write7BitNumber(value)\<close>: the body of the \<open>do ... while (value)\<close> loop.  The loop writes
  with \<open>this.buffer.writeUInt8\<close> directly, without \<open>alloc\<close>; it ends when the value is 0 or
  when the write throws, so it terminates: every round moves the position one byte further
  inside the buffer.
\<close>

function write7BitNumber_loop :: "int \<Rightarrow> 'a Binary_scheme \<Rightarrow> error + 'a Binary_scheme" where
  "write7BitNumber_loop v w =
     (let byte = js_and v 0x7F;
          v' = js_shr v 7;
          byte' = (if v' \<noteq> 0 then js_or byte 0x80 else byte)
      in case writeUInt8 byte' (bytePosition w) (buffer w) of
           Inl e \<Rightarrow> Inl e
         | Inr buf \<Rightarrow>
             (if v' \<noteq> 0
              then write7BitNumber_loop v' (w\<lparr>buffer := buf, bytePosition := bytePosition w + 1\<rparr>)
              else Inr (w\<lparr>buffer := buf, bytePosition := bytePosition w + 1\<rparr>)))"
  by pat_completeness auto
termination
  by (relation "measure (\<lambda>(v, w). length (buffer w) - bytePosition w)")
     (auto simp: writeUInt8_def split: if_splits)

declare write7BitNumber_loop.simps [simp del]

text \<open>\<open>write7BitNumber(value)\<close>: \<open>this.alloc(2)\<close>, then the loop.\<close>

definition write7BitNumber :: "int \<Rightarrow> 'a Binary_scheme \<Rightarrow> error + 'a Binary_scheme" where
  "write7BitNumber v w = write7BitNumber_loop v (alloc 2 w)"

subsection \<open>BinaryReader\<close>

text \<open>
  \<open>_seek(index)\<close> moves the position and throws when it leaves the buffer;
  \<open>_read(count)\<close> takes \<open>buffer.subarray(pos, pos + count)\<close> (cut at the end of the buffer)
  and seeks.
\<close>

definition seek :: "nat \<Rightarrow> 'a Binary_scheme \<Rightarrow> error + 'a Binary_scheme" where
  "seek index r =
     (let p = bytePosition r + index in
      if length (buffer r) < p then Inl (BufferSeekOutOfBounds p (length (buffer r)))
      else Inr (r\<lparr>bytePosition := p\<rparr>))"

definition read :: "nat \<Rightarrow> 'a Binary_scheme \<Rightarrow> error + (byte list \<times> 'a Binary_scheme)" where
  "read count r =
     (let sub = take count (drop (bytePosition r) (buffer r)) in
      case seek count r of Inl e \<Rightarrow> Inl e | Inr r' \<Rightarrow> Inr (sub, r'))"

text \<open>Node's \<open>buf.readUInt8()\<close> at offset 0: out of bounds on an empty buffer.\<close>

definition readUInt8 :: "byte list \<Rightarrow> error + int" where
  "readUInt8 buf = (case buf of [] \<Rightarrow> Inl ERR_BUFFER_OUT_OF_BOUNDS | b # _ \<Rightarrow> Inr (uint b))"

definition readByte :: "'a Binary_scheme \<Rightarrow> error + (int \<times> 'a Binary_scheme)" where
  "readByte r =
     (case read 1 r of
        Inl e \<Rightarrow> Inl e
      | Inr (sub, r') \<Rightarrow> (case readUInt8 sub of Inl e \<Rightarrow> Inl e | Inr v \<Rightarrow> Inr (v, r')))"

lemma readByte_Inr_position:
  "readByte r = Inr (v, r') \<Longrightarrow> buffer r' = buffer r \<and> bytePosition r' = bytePosition r + 1
     \<and> bytePosition r < length (buffer r)"
  by (auto simp: readByte_def read_def seek_def Let_def readUInt8_def
           split: sum.splits if_splits list.splits)

text \<open>
  \<open>read7BitNumber()\<close>: \<open>result |= (value & 0x7F) << bitsRead\<close> while the byte read has its
  high bit set.  The loop ends at the first byte without the high bit or when \<open>readByte\<close>
  throws at the end of the buffer.
\<close>

function read7BitNumber_loop ::
  "int \<Rightarrow> int \<Rightarrow> 'a Binary_scheme \<Rightarrow> error + (int \<times> 'a Binary_scheme)" where
  "read7BitNumber_loop result bitsRead r =
     (case readByte r of
        Inl e \<Rightarrow> Inl e
      | Inr (v, r') \<Rightarrow>
          (let result' = js_or result (js_shl (js_and v 0x7F) bitsRead);
               bitsRead' = bitsRead + 7
           in if js_and v 0x80 \<noteq> 0 then read7BitNumber_loop result' bitsRead' r'
              else Inr (result', r')))"
  by pat_completeness auto
termination
  by (relation "measure (\<lambda>(result, bitsRead, r). length (buffer r) - bytePosition r)")
     (auto dest!: readByte_Inr_position)

declare read7BitNumber_loop.simps [simp del]

definition read7BitNumber :: "'a Binary_scheme \<Rightarrow> error + (int \<times> 'a Binary_scheme)" where
  "read7BitNumber r = read7BitNumber_loop 0 0 r"

subsection \<open>The other accessors of reader and writer\<close>

text \<open>\<open>readBoolean()\<close> is \<open>Boolean(this.readByte())\<close>.\<close>

definition readBoolean :: "'a Binary_scheme \<Rightarrow> error + (bool \<times> 'a Binary_scheme)" where
  "readBoolean r = (case readByte r of Inl e \<Rightarrow> Inl e | Inr (v, r') \<Rightarrow> Inr (v \<noteq> 0, r'))"

text \<open>
  A string of JavaScript is modelled by the UTF-8 code units of its characters, one \<open>char\<close>
  for each: an ASCII character is one \<open>char\<close>, and two strings are equal when their code
  units are.

  Node's \<open>buf.toString()\<close> decodes the bytes as UTF-8 and puts the character U+FFFD (in
  UTF-8 \<open>EF BF BD\<close>) for what is not well-formed: one for every byte that cannot start a
  character, and one for every start of a character that the next byte does not continue,
  after which that next byte is looked at again.  The second byte of a character has a
  narrower range after \<open>E0\<close>, \<open>ED\<close>, \<open>F0\<close> and \<open>F4\<close>.  \<open>utf8_replace\<close> gives the code units
  of the decoded string.
\<close>

definition replacement_character :: "byte list" where
  "replacement_character = [0xEF, 0xBF, 0xBD]"

definition between :: "byte \<Rightarrow> byte \<Rightarrow> byte \<Rightarrow> bool" where
  "between lo b hi = (lo \<le> b \<and> b \<le> hi)"

fun utf8_replace :: "byte list \<Rightarrow> byte list" where
  "utf8_replace [] = []"
| "utf8_replace (b # bs) =
     (if b < 0x80 then b # utf8_replace bs
      else if between 0xC2 b 0xDF then
        (case bs of
           c1 # bs1 \<Rightarrow>
             if between 0x80 c1 0xBF then b # c1 # utf8_replace bs1
             else replacement_character @ utf8_replace bs
         | [] \<Rightarrow> replacement_character)
      else if between 0xE0 b 0xEF then
        (case bs of
           c1 # bs1 \<Rightarrow>
             if between (if b = 0xE0 then 0xA0 else 0x80) c1 (if b = 0xED then 0x9F else 0xBF) then
               (case bs1 of
                  c2 # bs2 \<Rightarrow>
                    if between 0x80 c2 0xBF then b # c1 # c2 # utf8_replace bs2
                    else replacement_character @ utf8_replace bs1
                | [] \<Rightarrow> replacement_character)
             else replacement_character @ utf8_replace bs
         | [] \<Rightarrow> replacement_character)
      else if between 0xF0 b 0xF4 then
        (case bs of
           c1 # bs1 \<Rightarrow>
             if between (if b = 0xF0 then 0x90 else 0x80) c1 (if b = 0xF4 then 0x8F else 0xBF) then
               (case bs1 of
                  c2 # bs2 \<Rightarrow>
                    if between 0x80 c2 0xBF then
                      (case bs2 of
                         c3 # bs3 \<Rightarrow>
                           if between 0x80 c3 0xBF then b # c1 # c2 # c3 # utf8_replace bs3
                           else replacement_character @ utf8_replace bs2
                       | [] \<Rightarrow> replacement_character)
                    else replacement_character @ utf8_replace bs1
                | [] \<Rightarrow> replacement_character)
             else replacement_character @ utf8_replace bs
         | [] \<Rightarrow> replacement_character)
      else replacement_character @ utf8_replace bs)"

definition toString :: "byte list \<Rightarrow> string" where
  "toString buf = map (\<lambda>b. char_of (unat b)) (utf8_replace buf)"

text \<open>\<open>readChars(count)\<close> and \<open>readChar()\<close>: \<open>this._read(count).toString()\<close>.\<close>

definition readChars :: "nat \<Rightarrow> 'a Binary_scheme \<Rightarrow> error + (string \<times> 'a Binary_scheme)" where
  "readChars count r =
     (case read count r of Inl e \<Rightarrow> Inl e | Inr (sub, r') \<Rightarrow> Inr (toString sub, r'))"

definition readChar :: "'a Binary_scheme \<Rightarrow> error + (string \<times> 'a Binary_scheme)" where
  "readChar r = readChars 1 r"

text \<open>
  \<open>readInt32()\<close>: \<open>this._read(4).readInt32LE()\<close>, four bytes little-endian, two's
  complement.  Node throws on a buffer shorter than four bytes.
\<close>

definition readInt32LE :: "byte list \<Rightarrow> error + int" where
  "readInt32LE buf =
     (case buf of
        b0 # b1 # b2 # b3 # _ \<Rightarrow>
          Inr (ToInt32 (uint b0 + 2 ^ 8 * uint b1 + 2 ^ 16 * uint b2 + 2 ^ 24 * uint b3))
      | _ \<Rightarrow> Inl ERR_BUFFER_OUT_OF_BOUNDS)"

definition readInt32 :: "'a Binary_scheme \<Rightarrow> error + (int \<times> 'a Binary_scheme)" where
  "readInt32 r =
     (case read 4 r of
        Inl e \<Rightarrow> Inl e
      | Inr (sub, r') \<Rightarrow> (case readInt32LE sub of Inl e \<Rightarrow> Inl e | Inr v \<Rightarrow> Inr (v, r')))"

text \<open>
  \<open>writeBytes(value)\<close>: \<open>this.alloc(value.length).buffer.set(value, pos)\<close>; \<open>set\<close> throws a
  \<open>RangeError\<close> when the source does not fit.
\<close>

definition writeBytes :: "byte list \<Rightarrow> 'a Binary_scheme \<Rightarrow> error + 'a Binary_scheme" where
  "writeBytes v w =
     (let w1 = alloc (length v) w; p = bytePosition w1 in
      if length (buffer w1) < p + length v then Inl RangeError
      else Inr (w1\<lparr>buffer := take p (buffer w1) @ v @ drop (p + length v) (buffer w1),
                   bytePosition := p + length v\<rparr>))"

text \<open>
  Node's \<open>buf.writeUInt32LE(value, offset)\<close> and \<open>buf.writeInt32LE(value, offset)\<close>: the
  value is checked against the range of the type, the four bytes must lie inside the
  buffer.
\<close>

definition le32 :: "int \<Rightarrow> byte list" where
  "le32 v = [word_of_int v, word_of_int (v div 2 ^ 8), word_of_int (v div 2 ^ 16),
             word_of_int (v div 2 ^ 24)]"

definition writeUInt32LE :: "int \<Rightarrow> nat \<Rightarrow> byte list \<Rightarrow> error + byte list" where
  "writeUInt32LE v offset buf =
     (if v < 0 \<or> 2 ^ 32 - 1 < v then Inl (ERR_OUT_OF_RANGE ''value'' v)
      else if length buf < offset + 4 then Inl (boundsError offset (int (length buf) - 4))
      else Inr (take offset buf @ le32 v @ drop (offset + 4) buf))"


definition writeUInt32 :: "int \<Rightarrow> 'a Binary_scheme \<Rightarrow> error + 'a Binary_scheme" where
  "writeUInt32 v w =
     (let w1 = alloc 4 w in
      case writeUInt32LE v (bytePosition w1) (buffer w1) of
        Inl e \<Rightarrow> Inl e
      | Inr buf \<Rightarrow> Inr (w1\<lparr>buffer := buf, bytePosition := bytePosition w1 + 4\<rparr>))"


section \<open>LzxReader and the LZX outer framing\<close>

text \<open>\<open>LzxReader extends BinaryReader\<close> with the bit offset inside the 16-bit frame.\<close>

record LzxReader = Binary +
  bitOffset :: nat

definition LzxReader :: "byte list \<Rightarrow> LzxReader" where
  "LzxReader file = \<lparr>buffer = file, bytePosition = 0, bitOffset = 0\<rparr>"

text \<open>
  \<open>readLZXInt16()\<close> (with \<open>seek = true\<close>, as \<open>decompress\<close> calls it): two bytes, the first
  one the high byte: \<open>(lsB << 8) | msB\<close>.
\<close>

definition readLZXInt16 :: "'a Binary_scheme \<Rightarrow> error + (int \<times> 'a Binary_scheme)" where
  "readLZXInt16 r =
     (case readByte r of
        Inl e \<Rightarrow> Inl e
      | Inr (lsB, r1) \<Rightarrow>
          (case readByte r1 of
             Inl e \<Rightarrow> Inl e
           | Inr (msB, r2) \<Rightarrow> Inr (js_or (js_shl lsB 8) msB, r2)))"

lemma readByte_Inr_range: "readByte r = Inr (v, r') \<Longrightarrow> 0 \<le> v \<and> v < 256"
  using uint_bounded [where ?'a = 8]
  by (auto simp: readByte_def read_def seek_def Let_def readUInt8_def
           split: sum.splits if_splits list.splits)

lemma ToInt32_ident: "0 \<le> n \<Longrightarrow> n < 2 ^ 31 \<Longrightarrow> ToInt32 n = n"
  by (simp add: ToInt32_def)

lemma readLZXInt16_Inr_nonneg:
  assumes "readLZXInt16 r = Inr (v, r')"
  shows "0 \<le> v"
proof -
  from assms obtain lsB msB r1 where
    l: "readByte r = Inr (lsB, r1)" and m: "readByte r1 = Inr (msB, r')"
    and v: "v = js_or (js_shl lsB 8) msB"
    by (auto simp: readLZXInt16_def split: sum.splits prod.splits)
  have lb: "0 \<le> lsB" "lsB < 256" and mb: "0 \<le> msB" "msB < 256"
    using readByte_Inr_range [OF l] readByte_Inr_range [OF m] by simp_all
  have "js_shl lsB 8 = lsB * 256"
    using lb by (simp add: js_shl_def ToInt32_ident push_bit_eq_mult)
  then show ?thesis
    using lb mb by (simp add: v js_or_def ToInt32_ident)
qed

text \<open>
  \<open>decompress(buffer, compressedTodo)\<close>.  The decoder of one frame, \<open>lzx.decompress(buffer,
  frameSize, blockSize)\<close> of class \<open>Lzx\<close>, is the argument \<open>lzx\<close> of the loop, with the state
  of the \<open>Lzx\<close> object passed along (\<open>new Lzx(16)\<close> at the start): it returns the bytes of the
  frame, its new state and the reader as it leaves it, or throws.  The framing is the same
  for every decoder.  With a flag other than \<open>0xFF\<close> the reader steps back one byte
  (\<open>buffer.bytePosition -= 1\<close>; the flag has just been read, so the position is at least
  1).  A round ends the loop (\<open>break\<close>) on a size of 0, throws on a size over \<open>0x10000\<close>,
  and otherwise appends the bytes of the frame.  The loop terminates: \<open>pos\<close> grows in every
  round.
\<close>

type_synonym ('s, 'a) lzx_decoder =
  "'s \<Rightarrow> 'a Binary_scheme \<Rightarrow> int \<Rightarrow> int \<Rightarrow> error + (byte list \<times> 's \<times> 'a Binary_scheme)"

function decompress_loop ::
  "('s, 'a) lzx_decoder \<Rightarrow> int \<Rightarrow> int \<Rightarrow> 's \<Rightarrow> 'a Binary_scheme \<Rightarrow> byte list
     \<Rightarrow> error + (byte list \<times> 'a Binary_scheme)" where
  "decompress_loop lzx compressedTodo pos st buf decompressed =
     (if pos < compressedTodo then
        (case readByte buf of
           Inl e \<Rightarrow> Inl e
         | Inr (flag, buf1) \<Rightarrow>
             (case (if flag = 0xFF then
                      (case readLZXInt16 buf1 of
                         Inl e \<Rightarrow> Inl e
                       | Inr (frameSize, buf2) \<Rightarrow>
                           (case readLZXInt16 buf2 of
                              Inl e \<Rightarrow> Inl e
                            | Inr (blockSize, buf3) \<Rightarrow> Inr (frameSize, blockSize, pos + 5, buf3)))
                    else
                      (case readLZXInt16 (buf1\<lparr>bytePosition := bytePosition buf1 - 1\<rparr>) of
                         Inl e \<Rightarrow> Inl e
                       | Inr (blockSize, buf2) \<Rightarrow> Inr (0x8000, blockSize, pos + 2, buf2)))
              of
                Inl e \<Rightarrow> Inl e
              | Inr (frameSize, blockSize, pos1, buf4) \<Rightarrow>
                  if blockSize = 0 \<or> frameSize = 0 then Inr (decompressed, buf4)
                  else if blockSize > 0x10000 \<or> frameSize > 0x10000 then Inl InvalidSize
                  else
                    (case lzx st buf4 frameSize blockSize of
                       Inl e \<Rightarrow> Inl e
                     | Inr (bytes, st', buf5) \<Rightarrow>
                         decompress_loop lzx compressedTodo (pos1 + blockSize) st' buf5
                           (decompressed @ bytes))))
      else Inr (decompressed, buf))"
  by pat_completeness auto
termination
  by (relation "measure (\<lambda>(lzx, compressedTodo, pos, st, buf, decompressed). nat (compressedTodo - pos))")
     (auto split: sum.splits if_splits prod.splits dest!: readLZXInt16_Inr_nonneg)

declare decompress_loop.simps [simp del]

definition decompress ::
  "('s, 'a) lzx_decoder \<Rightarrow> 's \<Rightarrow> 'a Binary_scheme \<Rightarrow> int
     \<Rightarrow> error + (byte list \<times> 'a Binary_scheme)" where
  "decompress lzx new_Lzx buf compressedTodo = decompress_loop lzx compressedTodo 0 new_Lzx buf []"

text \<open>
  Two notions for stating what a round reads: the reader \<open>n\<close> bytes further, and the
  16-bit integer whose high byte is at offset \<open>k\<close> from the position and whose low byte
  follows it (the byte-swapped integer of \<open>readLZXInt16\<close>).
\<close>

definition advance :: "nat \<Rightarrow> 'a Binary_scheme \<Rightarrow> 'a Binary_scheme" where
  "advance n r = r\<lparr>bytePosition := bytePosition r + n\<rparr>"

definition swapped16 :: "'a Binary_scheme \<Rightarrow> nat \<Rightarrow> int" where
  "swapped16 r k =
     256 * uint (buffer r ! (bytePosition r + k)) + uint (buffer r ! (bytePosition r + k + 1))"

section \<open>Worker: the XNB header\<close>

definition HIDEF_MASK :: int where "HIDEF_MASK = 0x1"
definition COMPRESSED_LZ4_MASK :: int where "COMPRESSED_LZ4_MASK = 0x40"
definition COMPRESSED_LZX_MASK :: int where "COMPRESSED_LZX_MASK = 0x80"

text \<open>
  \<open>interface Header\<close>.  \<open>pack\<close> reads \<open>target\<close>, \<open>xnbVersion\<close> and \<open>hidef\<close> only;
  \<open>parseHeader\<close> fills all five fields.
\<close>

record Header =
  target :: string
  xnbVersion :: int
  hidef :: bool
  compressed :: bool
  compressionType :: int

text \<open>\<open>new TextEncoder().encode(s)\<close>: the UTF-8 code units of the string.\<close>

definition encode :: "string \<Rightarrow> byte list" where
  "encode s = map (\<lambda>c. of_nat (of_char c)) s"

text \<open>
  \<open>s.toLowerCase()\<close>, for the strings that \<open>readChars(1)\<close> gives: one ASCII character, or
  U+FFFD, which has no lower case.  Only the ASCII letters are mapped.
\<close>

definition toLowerCase :: "string \<Rightarrow> string" where
  "toLowerCase s =
     map (\<lambda>c. let n = (of_char c :: nat) in if 65 \<le> n \<and> n \<le> 90 then char_of (n + 32) else c) s"

text \<open>
  The head of \<open>pack(json)\<close>, up to the two size fields: the writer is created with the
  length of the JSON text (\<open>jsonLength\<close>), then come the magic, the target, the version,
  the flags byte, the file size (0 for now) and, for LZ4, the decompressed size (0 for
  now).  What \<open>pack\<close> does after that changes no byte before offset 6.  The flags byte is
  the source's expression \<open>hidef ? 1 : 0 | (...)\<close>, in which \<open>|\<close> binds tighter than
  \<open>?:\<close>, so the mask belongs to the \<open>else\<close> branch.
\<close>

definition pack_header :: "nat \<Rightarrow> Header \<Rightarrow> error + Binary" where
  "pack_header jsonLength header =
     (let buf = BinaryWriter jsonLength;
          lz4Compression = (target header = ''a'' \<or> target header = ''i'');
          compressed = lz4Compression
      in case writeBytes (encode ''XNB'') buf of Inl e \<Rightarrow> Inl e | Inr buf1 \<Rightarrow>
         (case writeBytes (encode (target header)) buf1 of Inl e \<Rightarrow> Inl e | Inr buf2 \<Rightarrow>
         (case writeByte (xnbVersion header) buf2 of Inl e \<Rightarrow> Inl e | Inr buf3 \<Rightarrow>
         (case writeByte
                 (if hidef header then 1
                  else js_or 0 (if compressed \<and> lz4Compression then COMPRESSED_LZ4_MASK else 0))
                 buf3 of Inl e \<Rightarrow> Inl e | Inr buf4 \<Rightarrow>
         (case writeUInt32 0 buf4 of Inl e \<Rightarrow> Inl e | Inr buf5 \<Rightarrow>
          if lz4Compression then writeUInt32 0 buf5 else Inr buf5)))))"

text \<open>
  \<open>parseHeader(buffer)\<close>.  The warnings for an unknown target or version are log lines
  only.  \<open>a || b\<close> is \<open>a\<close> when \<open>a\<close> is not 0 and \<open>b\<close> otherwise.
\<close>

definition parseHeader :: "'a Binary_scheme \<Rightarrow> error + (Header \<times> 'a Binary_scheme)" where
  "parseHeader buf =
     (case readChars 3 buf of Inl e \<Rightarrow> Inl e | Inr (magic, buf1) \<Rightarrow>
        if magic \<noteq> ''XNB'' then Inl InvalidMagic
        else
         (case readChars 1 buf1 of Inl e \<Rightarrow> Inl e | Inr (t, buf2) \<Rightarrow>
         (case readByte buf2 of Inl e \<Rightarrow> Inl e | Inr (version, buf3) \<Rightarrow>
         (case readByte buf3 of Inl e \<Rightarrow> Inl e | Inr (flags, buf4) \<Rightarrow>
            Inr (\<lparr>target = toLowerCase t,
                  xnbVersion = version,
                  hidef = (js_and flags HIDEF_MASK \<noteq> 0),
                  compressed =
                    ((if js_and flags COMPRESSED_LZX_MASK \<noteq> 0 then js_and flags COMPRESSED_LZX_MASK
                      else js_and flags COMPRESSED_LZ4_MASK) \<noteq> 0),
                  compressionType =
                    (if js_and flags COMPRESSED_LZX_MASK \<noteq> 0 then COMPRESSED_LZX_MASK
                     else if js_and flags COMPRESSED_LZ4_MASK \<noteq> 0 then COMPRESSED_LZ4_MASK
                     else 0)\<rparr>, buf4)))))"

section \<open>Type and ReaderManager\<close>

text \<open>
  \<open>class Type\<close>: a name, the subtypes and the array flag.  \<open>equals\<close> compares the names
  first, then \<open>this.subtypes.every((type, i) => type.equals(other.subtypes[i]))\<close>, then the
  flags; \<open>every\<close> stops at the first \<open>false\<close>, and \<open>other.subtypes[i]\<close> is \<open>undefined\<close>
  past the end of the other list, whose \<open>name\<close> cannot be read.
\<close>

datatype Type = Type (name: string) (subtypes: "Type list") (isArray: bool)

fun equals :: "Type \<Rightarrow> Type \<Rightarrow> error + bool"
  and every_equals :: "Type list \<Rightarrow> Type list \<Rightarrow> error + bool" where
  "equals (Type n ts a) other =
     (if n \<noteq> name other then Inr False
      else case every_equals ts (subtypes other) of
             Inl e \<Rightarrow> Inl e
           | Inr b \<Rightarrow> Inr (b \<and> a = isArray other))"
| "every_equals [] os = Inr True"
| "every_equals (t # ts) [] = Inl TypeError"
| "every_equals (t # ts) (other # os) =
     (case equals t other of
        Inl e \<Rightarrow> Inl e
      | Inr b \<Rightarrow> if b then every_equals ts os else Inr False)"

text \<open>
  \<open>class Reader<T>\<close>: the type of the reader and its \<open>readFrom\<close>.  None of the readers of
  the repository uses the \<open>manager\<close> argument of \<open>readFrom\<close>, so a reader is a function of
  the buffer alone here.
\<close>

record ('v, 'b) Reader =
  rtype :: Type
  readFrom :: "'b \<Rightarrow> error + ('v \<times> 'b)"

text \<open>
  \<open>ReaderManager.readFrom(buffer, expect?)\<close>, with \<open>this._readers\<close> as the list
  \<open>readers\<close>.  \<open>this._readers[index]\<close> is \<open>undefined\<close> for an index outside the array, a
  negative one included; reading \<open>reader.type\<close> or \<open>reader.readFrom\<close> of \<open>undefined\<close>
  is a \<open>TypeError\<close>.
\<close>

definition ReaderManager_readFrom ::
  "('v, 'a Binary_scheme) Reader list \<Rightarrow> 'a Binary_scheme
     \<Rightarrow> ('w, 'a Binary_scheme) Reader option \<Rightarrow> error + ('v \<times> 'a Binary_scheme)" where
  "ReaderManager_readFrom readers buf expect =
     (case read7BitNumber buf of
        Inl e \<Rightarrow> Inl e
      | Inr (n, buf1) \<Rightarrow>
          (let index = n - 1 in
           if index \<ge> int (length readers) then Inl (InvalidReaderIndex index)
           else
             (let reader = (if 0 \<le> index then Some (readers ! nat index) else None) in
              case (case expect of
                      None \<Rightarrow> Inr True
                    | Some ex \<Rightarrow>
                        (case reader of
                           None \<Rightarrow> Inl TypeError
                         | Some rd \<Rightarrow> equals (rtype rd) (rtype ex)))
              of
                Inl e \<Rightarrow> Inl e
              | Inr same \<Rightarrow>
                  if \<not> same then Inl ReaderTypeMismatch
                  else (case reader of
                          None \<Rightarrow> Inl TypeError
                        | Some rd \<Rightarrow> readFrom rd buf1))))"

section \<open>Numbers of JavaScript as doubles\<close>

text \<open>
  The arithmetic of the content readers is on numbers, that is on IEEE 754 binary64
  values.  A finite double is modelled by the rational it stands for, the rest are the two
  infinities and \<open>NaN\<close>.  The sign of zero is not modelled: \<open>-0\<close> and \<open>+0\<close> are the one value
  \<open>Num 0\<close> (they are equal under \<open>===\<close> and are stored as the same byte), and a zero
  divisor counts as \<open>+0\<close>, which is what an element of a byte array is.
\<close>

datatype number = Num rat | PosInfinity | NegInfinity | NaN

text \<open>\<open>bitlen n\<close> is the number of binary digits of a positive integer.\<close>

function bitlen :: "int \<Rightarrow> nat" where
  "bitlen n = (if n \<le> 0 then 0 else Suc (bitlen (n div 2)))"
  by pat_completeness auto
termination
  by (relation "measure nat") auto

declare bitlen.simps [simp del]

definition pow2 :: "int \<Rightarrow> rat" where
  "pow2 e = (if 0 \<le> e then 2 ^ nat e else 1 / 2 ^ nat (- e))"

text \<open>For \<open>x > 0\<close>, \<open>ilog2 x\<close> is the exponent \<open>e\<close> with \<open>2^e \<le> x < 2^(e+1)\<close>.\<close>

definition ilog2 :: "rat \<Rightarrow> int" where
  "ilog2 x = (if 1 \<le> x then int (bitlen \<lfloor>x\<rfloor>) - 1 else - int (bitlen (\<lceil>1 / x\<rceil> - 1)))"

definition round_half_even :: "rat \<Rightarrow> int" where
  "round_half_even x =
     (let f = \<lfloor>x\<rfloor>; d = x - of_int f
      in if d < 1 / 2 then f else if 1 / 2 < d then f + 1 else if even f then f else f + 1)"

text \<open>
  \<open>fl x\<close> is the double nearest to \<open>x\<close>, ties to the even significand: 53 significant
  bits, and below \<open>2^-1022\<close> the fixed spacing \<open>2^-1074\<close> of the subnormal numbers.  A result
  of magnitude \<open>2^1024\<close> or more is an infinity.
\<close>

definition fl :: "rat \<Rightarrow> rat" where
  "fl x = (if x = 0 then 0
           else let e = max (ilog2 \<bar>x\<bar> - 52) (- 1074)
                in sgn x * of_int (round_half_even (\<bar>x\<bar> / pow2 e)) * pow2 e)"

definition round_number :: "rat \<Rightarrow> number" where
  "round_number x =
     (let y = fl x
      in if 2 ^ 1024 \<le> y then PosInfinity else if y \<le> - (2 ^ 1024) then NegInfinity else Num y)"

text \<open>\<open>a / b\<close>, \<open>a * b\<close>, \<open>a + b\<close>, \<open>-a\<close> and \<open>a % b\<close> on numbers.\<close>

fun js_div :: "number \<Rightarrow> number \<Rightarrow> number" where
  "js_div NaN b = NaN"
| "js_div a NaN = NaN"
| "js_div (Num x) (Num y) =
     (if y = 0 then (if x = 0 then NaN else if 0 < x then PosInfinity else NegInfinity)
      else round_number (x / y))"
| "js_div (Num x) b = Num 0"
| "js_div PosInfinity (Num y) = (if 0 \<le> y then PosInfinity else NegInfinity)"
| "js_div NegInfinity (Num y) = (if 0 \<le> y then NegInfinity else PosInfinity)"
| "js_div a b = NaN"

fun js_mul :: "number \<Rightarrow> number \<Rightarrow> number" where
  "js_mul NaN b = NaN"
| "js_mul a NaN = NaN"
| "js_mul (Num x) (Num y) = round_number (x * y)"
| "js_mul (Num x) PosInfinity = (if x = 0 then NaN else if 0 < x then PosInfinity else NegInfinity)"
| "js_mul (Num x) NegInfinity = (if x = 0 then NaN else if 0 < x then NegInfinity else PosInfinity)"
| "js_mul PosInfinity (Num y) = (if y = 0 then NaN else if 0 < y then PosInfinity else NegInfinity)"
| "js_mul NegInfinity (Num y) = (if y = 0 then NaN else if 0 < y then NegInfinity else PosInfinity)"
| "js_mul PosInfinity PosInfinity = PosInfinity"
| "js_mul NegInfinity NegInfinity = PosInfinity"
| "js_mul a b = NegInfinity"

fun js_add :: "number \<Rightarrow> number \<Rightarrow> number" where
  "js_add NaN b = NaN"
| "js_add a NaN = NaN"
| "js_add (Num x) (Num y) = round_number (x + y)"
| "js_add PosInfinity NegInfinity = NaN"
| "js_add NegInfinity PosInfinity = NaN"
| "js_add (Num x) b = b"
| "js_add a b = a"

fun js_neg :: "number \<Rightarrow> number" where
  "js_neg (Num x) = Num (- x)"
| "js_neg PosInfinity = NegInfinity"
| "js_neg NegInfinity = PosInfinity"
| "js_neg NaN = NaN"

definition trunc :: "rat \<Rightarrow> int" where
  "trunc x = (if 0 \<le> x then \<lfloor>x\<rfloor> else \<lceil>x\<rceil>)"

fun js_rem :: "number \<Rightarrow> number \<Rightarrow> number" where
  "js_rem (Num x) (Num y) = (if y = 0 then NaN else Num (x - y * of_int (trunc (x / y))))"
| "js_rem (Num x) PosInfinity = Num x"
| "js_rem (Num x) NegInfinity = Num x"
| "js_rem a b = NaN"

text \<open>\<open>Math.ceil\<close>, \<open>Math.floor\<close>, \<open>Math.min\<close> and \<open>Number.isInteger\<close>.\<close>

fun Math_ceil :: "number \<Rightarrow> number" where
  "Math_ceil (Num x) = Num (of_int \<lceil>x\<rceil>)"
| "Math_ceil a = a"

fun Math_floor :: "number \<Rightarrow> number" where
  "Math_floor (Num x) = Num (of_int \<lfloor>x\<rfloor>)"
| "Math_floor a = a"

fun Math_min :: "number \<Rightarrow> number \<Rightarrow> number" where
  "Math_min NaN b = NaN"
| "Math_min a NaN = NaN"
| "Math_min NegInfinity b = NegInfinity"
| "Math_min a NegInfinity = NegInfinity"
| "Math_min PosInfinity b = b"
| "Math_min a PosInfinity = a"
| "Math_min (Num x) (Num y) = Num (min x y)"

fun isInteger :: "number \<Rightarrow> bool" where
  "isInteger (Num x) = (of_int \<lfloor>x\<rfloor> = x)"
| "isInteger a = False"

subsection \<open>Uint8Array\<close>

text \<open>
  Reading \<open>data[i]\<close> gives the byte as a number, and \<open>undefined\<close> past the end, which is
  \<open>NaN\<close> in arithmetic.  Writing \<open>data[i] = v\<close> converts with \<open>ToUint8\<close> (\<open>NaN\<close> and the
  infinities become 0, a finite number is truncated and taken modulo 256) and does nothing
  past the end.
\<close>

definition elem :: "byte list \<Rightarrow> nat \<Rightarrow> number" where
  "elem a i = (if i < length a then Num (of_int (uint (a ! i))) else NaN)"

fun ToUint8 :: "number \<Rightarrow> byte" where
  "ToUint8 (Num x) = word_of_int (trunc x)"
| "ToUint8 a = 0"

definition store :: "byte list \<Rightarrow> nat \<Rightarrow> number \<Rightarrow> byte list" where
  "store a i v = (if i < length a then a[i := ToUint8 v] else a)"

lemma length_store [simp]: "length (store a i v) = length a"
  by (simp add: store_def)

section \<open>Texture2DReader\<close>




text \<open>
  The loop of \<open>writeTo\<close> that multiplies the alpha into the colour channels:
  \<^verbatim>\<open>
  for (let i = 0; i < data.length; i += 4) {
    const alpha = data[i + 3] / 255;
    data[i] = Math.floor(data[i] * alpha);
    data[i + 1] = Math.floor(data[i + 1] * alpha);
    data[i + 2] = Math.floor(data[i + 2] * alpha);
  }\<close>
\<close>

function premultiply_from :: "nat \<Rightarrow> byte list \<Rightarrow> byte list" where
  "premultiply_from i data =
     (if i < length data then
        (let alpha = js_div (elem data (i + 3)) (Num 255);
             data1 = store data i (Math_floor (js_mul (elem data i) alpha));
             data2 = store data1 (i + 1) (Math_floor (js_mul (elem data1 (i + 1)) alpha));
             data3 = store data2 (i + 2) (Math_floor (js_mul (elem data2 (i + 2)) alpha))
         in premultiply_from (i + 4) data3)
      else data)"
  by pat_completeness auto
termination
  by (relation "measure (\<lambda>(i, data). length data - i)") auto

declare premultiply_from.simps [simp del]


text \<open>
  What the two loops store for one colour channel \<open>c\<close> of a pixel with alpha \<open>a\<close>: the
  expressions \<open>Math.min(Math.ceil(c * (255 / a)), 255)\<close> and \<open>Math.floor(c * (a / 255))\<close>,
  converted to a byte.
\<close>

definition unpremultiplied :: "int \<Rightarrow> int \<Rightarrow> byte" where
  "unpremultiplied c a =
     ToUint8 (Math_min (Math_ceil (js_mul (Num (of_int c)) (js_div (Num 255) (Num (of_int a)))))
                       (Num 255))"



record Texture2D =
  format :: int
  data :: nat
  width :: int
  height :: int


section \<open>SFDItemReader: the pixels of a layer\<close>

text \<open>\<open>class Color\<close>; \<open>new Color(red, green, blue, alpha)\<close>, every argument 0 by default.\<close>

record Color =
  red :: int
  green :: int
  blue :: int
  alpha :: int

definition new_Color :: "int \<Rightarrow> int \<Rightarrow> int \<Rightarrow> int \<Rightarrow> Color" where
  "new_Color r g b a = \<lparr>red = r, green = g, blue = b, alpha = a\<rparr>"

text \<open>
  The loop over the pixels of a layer in \<open>readFrom\<close>, with \<open>n\<close> pixels still to read:
  \<^verbatim>\<open>
  for (let k = 0; k < size; k++) {
    if (buffer.readBoolean()) {
      data[k] = new Color(color.red, color.blue, color.green, color.alpha);
    } else {
      data[k] = color = dynamicColorTable[buffer.readByte()];
      emptyImage = false;
    }
  }\<close>
  The register \<open>color\<close> and the entries of \<open>data\<close> are a colour or \<open>undefined\<close> (an index
  past the end of the colour table); reading \<open>color.red\<close> of \<open>undefined\<close> is a \<open>TypeError\<close>.
\<close>

fun readPixels ::
  "Color list \<Rightarrow> nat \<Rightarrow> Color option \<Rightarrow> bool \<Rightarrow> 'a Binary_scheme
     \<Rightarrow> error + (Color option list \<times> bool \<times> 'a Binary_scheme)" where
  "readPixels dynamicColorTable 0 color emptyImage buf = Inr ([], emptyImage, buf)"
| "readPixels dynamicColorTable (Suc n) color emptyImage buf =
     (case readBoolean buf of
        Inl e \<Rightarrow> Inl e
      | Inr (flag, buf1) \<Rightarrow>
          if flag then
            (case color of
               None \<Rightarrow> Inl TypeError
             | Some c \<Rightarrow>
                 (case readPixels dynamicColorTable n color emptyImage buf1 of
                    Inl e \<Rightarrow> Inl e
                  | Inr (rest, em, buf2) \<Rightarrow>
                      Inr (Some (new_Color (red c) (blue c) (green c) (alpha c)) # rest, em, buf2)))
          else
            (case readByte buf1 of
               Inl e \<Rightarrow> Inl e
             | Inr (idx, buf2) \<Rightarrow>
                 (let color' = (if nat idx < length dynamicColorTable
                                then Some (dynamicColorTable ! nat idx) else None)
                  in case readPixels dynamicColorTable n color' False buf2 of
                       Inl e \<Rightarrow> Inl e
                     | Inr (rest, em, buf3) \<Rightarrow> Inr (color' # rest, em, buf3))))"

text \<open>\<open>Color.toArray(data)\<close>: four bytes for every colour; an \<open>undefined\<close> entry throws.\<close>

fun Color_toArray :: "Color option list \<Rightarrow> error + byte list" where
  "Color_toArray [] = Inr []"
| "Color_toArray (None # cs) = Inl TypeError"
| "Color_toArray (Some c # cs) =
     (case Color_toArray cs of
        Inl e \<Rightarrow> Inl e
      | Inr bytes \<Rightarrow>
          Inr (word_of_int (red c) # word_of_int (green c) # word_of_int (blue c)
                 # word_of_int (alpha c) # bytes))"

text \<open>
  One round of the loop over the layers of a part (\<open>textures[j]\<close>): the flag of the layer,
  its pixels from a register that starts at \<open>new Color()\<close>, the closing character, and
  \<open>undefined\<close> for a missing or an empty layer.  The image is the triple of its bytes, its
  height and its width.
\<close>

definition readLayer ::
  "Color list \<Rightarrow> int \<Rightarrow> int \<Rightarrow> 'a Binary_scheme
     \<Rightarrow> error + ((byte list \<times> int \<times> int) option \<times> 'a Binary_scheme)" where
  "readLayer dynamicColorTable w h buf =
     (case readBoolean buf of
        Inl e \<Rightarrow> Inl e
      | Inr (present, buf1) \<Rightarrow>
          if present then
            (case readPixels dynamicColorTable (nat (w * h)) (Some (new_Color 0 0 0 0)) True buf1 of
               Inl e \<Rightarrow> Inl e
             | Inr (pixels, emptyImage, buf2) \<Rightarrow>
                 (case readChar buf2 of
                    Inl e \<Rightarrow> Inl e
                  | Inr (c, buf3) \<Rightarrow>
                      if emptyImage then Inr (None, buf3)
                      else (case Color_toArray pixels of
                              Inl e \<Rightarrow> Inl e
                            | Inr bytes \<Rightarrow> Inr (Some (bytes, h, w), buf3))))
          else Inr (None, buf1))"

section \<open>SFDAnimationReader: the derived fields of a part\<close>

text \<open>
  \<open>localId: id % 50\<close> and \<open>type: id >= 0 ? id / 50 : -(-id / 50 + 1)\<close> for the \<open>id\<close> read
  with \<open>readInt32\<close>; \<open>/\<close> is the division of numbers.
\<close>

definition part_localId :: "int \<Rightarrow> number" where
  "part_localId i = js_rem (Num (of_int i)) (Num 50)"

definition part_type :: "int \<Rightarrow> number" where
  "part_type i =
     (if i \<ge> 0 then js_div (Num (of_int i)) (Num 50)
      else js_neg (js_add (js_div (js_neg (Num (of_int i))) (Num 50)) (Num 1)))"

text \<open>The three fields of a part that come from its id: \<open>globalId\<close>, \<open>localId\<close>, \<open>type\<close>.\<close>

definition readPartId ::
  "'a Binary_scheme \<Rightarrow> error + ((number \<times> number \<times> number) \<times> 'a Binary_scheme)" where
  "readPartId buf =
     (case readInt32 buf of
        Inl e \<Rightarrow> Inl e
      | Inr (i, buf1) \<Rightarrow> Inr ((Num (of_int i), part_localId i, part_type i), buf1))"

section \<open>The 7-bit number of the writer\<close>

lemma and_7F: "(k::int) AND 0x7F = k mod 128"
  using take_bit_eq_mod [of 7 k] take_bit_eq_mask [of 7 k]
  by (simp add: mask_eq_exp_minus_1)

lemma and_80_zero: "0 \<le> b \<Longrightarrow> b < 128 \<Longrightarrow> (b::int) AND 0x80 = 0"
  using and_exp_eq_0_iff_not_bit [of b 7] by (simp add: bit_iff_odd)

lemma or_80: "0 \<le> b \<Longrightarrow> b < 128 \<Longrightarrow> (b::int) OR 0x80 = b + 128"
  using plus_and_or [of b 128] and_80_zero [of b] by simp

lemma ToInt32_range: "- (2 ^ 31) \<le> ToInt32 n \<and> ToInt32 n < 2 ^ 31"
  by (simp add: ToInt32_def)

lemma ToInt32_idem: "- (2 ^ 31) \<le> n \<Longrightarrow> n < 2 ^ 31 \<Longrightarrow> ToInt32 n = n"
  by (simp add: ToInt32_def)

lemma js_shr_7: "js_shr v 7 = ToInt32 v div 128"
  by (simp add: js_shr_def drop_bit_eq_div)

lemma js_and_7F: "js_and v 0x7F = ToInt32 v mod 128"
proof -
  have "ToInt32 0x7F = 0x7F" by (simp add: ToInt32_def)
  then show ?thesis by (simp add: js_and_def and_7F)
qed

lemma js_or_80: "0 \<le> b \<Longrightarrow> b < 128 \<Longrightarrow> js_or b 0x80 = b + 128"
  by (simp add: js_or_def ToInt32_ident or_80 ToInt32_def)

lemma ToInt32_div_128: "ToInt32 (ToInt32 v div 128) = ToInt32 v div 128"
  using ToInt32_range [of v] by (intro ToInt32_idem) auto

text \<open>
  One round of the loop of \<open>write7BitNumber\<close>, for any value: the operators \<open>&\<close> and \<open>>>\<close>
  see the value through \<open>ToInt32\<close>.
\<close>

lemma write7BitNumber_loop_step:
  "write7BitNumber_loop v w =
    (if length (buffer w) \<le> bytePosition w
     then Inl (boundsError (bytePosition w) (int (length (buffer w)) - 1))
     else if ToInt32 v div 128 \<noteq> 0
     then write7BitNumber_loop (ToInt32 v div 128)
            (w\<lparr>buffer := (buffer w)[bytePosition w := word_of_int (ToInt32 v mod 128 + 128)],
               bytePosition := bytePosition w + 1\<rparr>)
     else Inr (w\<lparr>buffer := (buffer w)[bytePosition w := word_of_int (ToInt32 v mod 128)],
                 bytePosition := bytePosition w + 1\<rparr>))"
proof -
  have b: "0 \<le> ToInt32 v mod 128" "ToInt32 v mod 128 < 128" by simp_all
  show ?thesis
    using b
    apply (subst write7BitNumber_loop.simps)
    apply (simp add: js_shr_7 js_and_7F js_or_80 writeUInt8_def Let_def)
    apply arith
    done
qed

text \<open>
  C10 (as amended).  \<open>write7BitNumber\<close> reserves two bytes whatever the value is: on a new
  \<open>BinaryWriter\<close> (capacity 0) the buffer has two bytes when the loop starts.  What the
  call does with any integer \<open>n\<close> depends on \<open>m = ToInt32(n)\<close> alone: for \<open>0 \<le> m < 128\<close> it
  stores the byte \<open>m\<close> and stops at position 1; for \<open>128 \<le> m < 2^14\<close> it stores the two bytes
  \<open>m mod 128 + 128\<close> and \<open>m div 128\<close> and stops at position 2; for every other \<open>m\<close> the write
  of the third byte, at offset 2, is past the end of the buffer and throws
  \<open>ERR_OUT_OF_RANGE\<close>.  For \<open>0 \<le> n < 2^31\<close>, the range of the 7-bit number, \<open>m\<close> is \<open>n\<close>: every
  \<open>n < 2^14\<close> is written, every \<open>n \<ge> 2^14\<close> throws.
\<close>

theorem write7BitNumber_fresh_capacity:
  "length (buffer (alloc 2 (BinaryWriter 0))) = 2
   \<and> write7BitNumber n (BinaryWriter 0)
       = (if 0 \<le> ToInt32 n \<and> ToInt32 n < 128
          then Inr \<lparr>buffer = [word_of_int (ToInt32 n), 0], bytePosition = 1\<rparr>
          else if 128 \<le> ToInt32 n \<and> ToInt32 n < 2 ^ 14
          then Inr \<lparr>buffer = [word_of_int (ToInt32 n mod 128 + 128),
                               word_of_int (ToInt32 n div 128)],
                     bytePosition = 2\<rparr>
          else Inl (ERR_OUT_OF_RANGE ''offset'' 2))
   \<and> (0 \<le> n \<and> n < 2 ^ 31 \<longrightarrow> ToInt32 n = n)"
proof -
  define m where "m = ToInt32 n"
  note md = m_def [symmetric] ToInt32_div_128 [of n, unfolded m_def [symmetric]]
  have w0: "alloc 2 (BinaryWriter 0) = \<lparr>buffer = [0, 0], bytePosition = 0\<rparr>"
    by (simp add: alloc_def BinaryWriter_def numeral_2_eq_2)
  have small: "write7BitNumber n (BinaryWriter 0)
                 = Inr \<lparr>buffer = [word_of_int m, 0], bytePosition = 1\<rparr>"
    if "0 \<le> m" "m < 128"
    using that
    by (simp add: write7BitNumber_def w0 write7BitNumber_loop_step [of n] md)
  have mid: "write7BitNumber n (BinaryWriter 0)
                 = Inr \<lparr>buffer = [word_of_int (m mod 128 + 128), word_of_int (m div 128)],
                        bytePosition = 2\<rparr>"
    if "128 \<le> m" "m < 2 ^ 14"
  proof -
    have "m div 128 \<noteq> 0" "m div 128 div 128 = 0" "0 \<le> m div 128" "m div 128 < 128"
      using that by auto
    then show ?thesis
      by (simp add: write7BitNumber_def w0 write7BitNumber_loop_step [of n]
                    write7BitNumber_loop_step [of "m div 128"] md)
  qed
  have big: "write7BitNumber n (BinaryWriter 0) = Inl (ERR_OUT_OF_RANGE ''offset'' 2)"
    if "m < 0 \<or> 2 ^ 14 \<le> m"
  proof -
    have "m div 128 \<noteq> 0" "m div 128 div 128 \<noteq> 0"
      using that by auto
    then show ?thesis
      by (simp add: write7BitNumber_def w0 write7BitNumber_loop_step [of n]
                    write7BitNumber_loop_step [of "m div 128"]
                    write7BitNumber_loop_step [of "m div 128 div 128"] md boundsError_def)
  qed
  have same: "ToInt32 n = n" if "0 \<le> n" "n < 2 ^ 31"
    using that by (simp add: ToInt32_ident)
  show ?thesis
    using small mid big same unfolding m_def [symmetric] by (auto simp: w0)
qed

text \<open>
  300 is written as \<open>AC 02\<close>, 16384 throws.
\<close>

theorem write7BitNumber_fresh_capacity_witness:
  "write7BitNumber 300 (BinaryWriter 0) = Inr \<lparr>buffer = [0xAC, 0x02], bytePosition = 2\<rparr>
   \<and> write7BitNumber 16384 (BinaryWriter 0) = Inl (ERR_OUT_OF_RANGE ''offset'' 2)"
  using write7BitNumber_fresh_capacity [of 300] write7BitNumber_fresh_capacity [of 16384]
  by (simp add: ToInt32_def)

text \<open>
  The claim as stated, for every value, fails outside the range of the 7-bit number:
  \<open>2^32\<close> is not below \<open>2^14\<close> and is written, as the one byte 0, and \<open>-1\<close> is below \<open>2^14\<close>
  and throws at the third byte.
\<close>

theorem write7BitNumber_fresh_capacity_counterexample:
  "write7BitNumber (2 ^ 32) (BinaryWriter 0) = Inr \<lparr>buffer = [0, 0], bytePosition = 1\<rparr>
   \<and> write7BitNumber (- 1) (BinaryWriter 0) = Inl (ERR_OUT_OF_RANGE ''offset'' 2)"
  by (simp add: write7BitNumber_def BinaryWriter_def alloc_def write7BitNumber_loop.simps
      js_and_def js_or_def js_shr_def ToInt32_def writeUInt8_def boundsError_def
      Let_def numeral_2_eq_2)

text \<open>
  C1.  The round trip of the 7-bit number does not hold on a new writer for every
  \<open>n < 2^31\<close>: \<open>write7BitNumber(16384)\<close> on \<open>new BinaryWriter()\<close> throws at its third byte,
  so there are no bytes to decode.  The same value is written in three bytes, and read
  back, when the buffer has room for them.
\<close>

theorem write7BitNumber_16384_fresh_throws:
  "write7BitNumber 16384 (BinaryWriter 0) = Inl (ERR_OUT_OF_RANGE ''offset'' 2)
   \<and> write7BitNumber 16384 (BinaryWriter 3)
       = Inr \<lparr>buffer = [0x80, 0x80, 0x01], bytePosition = 3\<rparr>
   \<and> read7BitNumber \<lparr>buffer = [0x80, 0x80, 0x01], bytePosition = 0\<rparr>
       = Inr (16384, \<lparr>buffer = [0x80, 0x80, 0x01], bytePosition = 3\<rparr>)"
  by (simp add: write7BitNumber_def BinaryWriter_def alloc_def write7BitNumber_loop.simps
      read7BitNumber_def read7BitNumber_loop.simps readByte_def read_def seek_def readUInt8_def
      js_and_def js_or_def js_shr_def js_shl_def ToInt32_def writeUInt8_def boundsError_def
      Let_def numeral_3_eq_3)

section \<open>The reader index\<close>

lemmas reader_eval = readByte_def read_def seek_def readUInt8_def readChars_def readBoolean_def
  readChar_def js_and_def js_or_def js_shl_def js_shr_def ToInt32_def Let_def

text \<open>
  C7.  When the 7-bit reader index \<open>i\<close> read from the buffer has \<open>i - 1\<close> at or past the
  number of readers, \<open>ReaderManager.readFrom\<close> throws \<open>Invalid reader index\<close>, whatever the
  readers and the expected reader are: no reader's \<open>readFrom\<close> is called.
\<close>

theorem readFrom_invalid_reader_index:
  assumes "read7BitNumber buf = Inr (i, buf1)"
    and "int (length readers) \<le> i - 1"
  shows "ReaderManager_readFrom readers buf expect = Inl (InvalidReaderIndex (i - 1))"
  using assms by (simp add: ReaderManager_readFrom_def)

text \<open>An index of 255 (the bytes \<open>FF 01\<close>) with the four readers of \<open>Worker.ts\<close>.\<close>

theorem readFrom_invalid_reader_index_witness:
  "ReaderManager_readFrom
     [\<lparr>rtype = Type ''Microsoft.Xna.Framework.Content.Texture2DReader'' [] False,
        readFrom = (\<lambda>b. Inr ((), b))\<rparr>,
      \<lparr>rtype = Type ''Microsoft.Xna.Framework.Content.SoundEffectReader'' [] False,
        readFrom = (\<lambda>b. Inr ((), b))\<rparr>,
      \<lparr>rtype = Type ''SFD.Content.ItemsContentTypeReader'' [] False,
        readFrom = (\<lambda>b. Inr ((), b))\<rparr>,
      \<lparr>rtype = Type ''SFD.Content.AnimationsContentTypeReader'' [] False,
        readFrom = (\<lambda>b. Inr ((), b))\<rparr>]
     \<lparr>buffer = [0xFF, 0x01], bytePosition = 0\<rparr>
     (None :: (unit, Binary) Reader option)
   = Inl (InvalidReaderIndex 254)"
proof -
  have r: "read7BitNumber \<lparr>buffer = [0xFF, 0x01], bytePosition = 0\<rparr>
             = Inr (255, \<lparr>buffer = [0xFF, 0x01], bytePosition = 2\<rparr>)"
    by (simp add: read7BitNumber_def read7BitNumber_loop.simps readByte_def read_def seek_def
        readUInt8_def js_and_def js_or_def js_shl_def ToInt32_def Let_def)
  show ?thesis
    by (rule readFrom_invalid_reader_index [OF r, simplified]) simp
qed

text \<open>
  C8.  The guard on the index is one-sided.  A 7-bit index of 0, the reserved value, gives
  the index \<open>-1\<close>, which is not at or past the number of readers: \<open>readFrom\<close> does not
  throw \<open>Invalid reader index\<close> but goes on to \<open>this._readers[-1]\<close>, which is
  \<open>undefined\<close>, and ends in the \<open>TypeError\<close> of the runtime, whatever the readers and the
  expected reader are.
\<close>

theorem readFrom_index_zero_not_rejected:
  assumes "read7BitNumber buf = Inr (0, buf1)"
  shows "ReaderManager_readFrom readers buf expect = Inl TypeError
         \<and> ReaderManager_readFrom readers buf expect \<noteq> Inl (InvalidReaderIndex (- 1))"
  using assms by (simp add: ReaderManager_readFrom_def split: option.splits)

text \<open>The byte \<open>00\<close> as the reader index, with one reader.\<close>

theorem readFrom_index_zero_not_rejected_witness:
  "ReaderManager_readFrom
     [\<lparr>rtype = Type ''Microsoft.Xna.Framework.Content.Texture2DReader'' [] False,
        readFrom = (\<lambda>b. Inr ((), b))\<rparr>]
     \<lparr>buffer = [0x00], bytePosition = 0\<rparr>
     (None :: (unit, Binary) Reader option)
   = Inl TypeError"
proof -
  have r: "read7BitNumber \<lparr>buffer = [0x00], bytePosition = 0\<rparr>
             = Inr (0, \<lparr>buffer = [0x00], bytePosition = 1\<rparr>)"
    by (simp add: read7BitNumber_def read7BitNumber_loop.simps readByte_def read_def seek_def
        readUInt8_def js_and_def js_or_def js_shl_def ToInt32_def Let_def)
  show ?thesis
    using readFrom_index_zero_not_rejected [OF r, THEN conjunct1] by (rule trans) simp
qed

section \<open>The header written by pack and read by parseHeader\<close>

lemma alloc_bytePosition [simp]: "bytePosition (alloc n w) = bytePosition w"
  by (simp add: alloc_def)

lemma alloc_room:
  "bytePosition w \<le> length (buffer w) \<Longrightarrow> bytePosition w + n \<le> length (buffer (alloc n w))"
  by (simp add: alloc_def)

lemma alloc_take:
  "bytePosition w \<le> length (buffer w)
   \<Longrightarrow> take (bytePosition w) (buffer (alloc n w)) = take (bytePosition w) (buffer w)"
  by (simp add: alloc_def)

lemma writeBytes_written:
  assumes "bytePosition w \<le> length (buffer w)"
  shows "\<exists>w'. writeBytes v w = Inr w' \<and> bytePosition w' = bytePosition w + length v
           \<and> bytePosition w' \<le> length (buffer w')
           \<and> take (bytePosition w') (buffer w') = take (bytePosition w) (buffer w) @ v"
  using alloc_room [OF assms, of "length v"] alloc_take [OF assms, of "length v"] assms
  by (simp add: writeBytes_def Let_def min_absorb2)

lemma writeByte_written:
  assumes "bytePosition w \<le> length (buffer w)" "0 \<le> v" "v \<le> 255"
  shows "\<exists>w'. writeByte v w = Inr w' \<and> bytePosition w' = bytePosition w + 1
           \<and> bytePosition w' \<le> length (buffer w')
           \<and> take (bytePosition w') (buffer w') = take (bytePosition w) (buffer w) @ [word_of_int v]"
  using alloc_room [OF assms(1), of 1] alloc_take [OF assms(1), of 1] assms
  by (simp add: writeByte_def writeUInt8_def Let_def take_Suc_conv_app_nth)

lemma writeUInt32_written:
  assumes "bytePosition w \<le> length (buffer w)" "0 \<le> v" "v < 2 ^ 32"
  shows "\<exists>w'. writeUInt32 v w = Inr w' \<and> bytePosition w' = bytePosition w + 4
           \<and> bytePosition w' \<le> length (buffer w')
           \<and> take (bytePosition w') (buffer w') = take (bytePosition w) (buffer w) @ le32 v"
  using alloc_room [OF assms(1), of 4] alloc_take [OF assms(1), of 4] assms
  by (simp add: writeUInt32_def writeUInt32LE_def Let_def le32_def min_absorb2)

lemma pack_header_written:
  assumes "0 \<le> xnbVersion h" "xnbVersion h \<le> 255"
  shows "\<exists>w. pack_header n h = Inr w \<and> bytePosition w \<le> length (buffer w)
           \<and> take (bytePosition w) (buffer w)
               = encode ''XNB'' @ encode (target h)
                 @ [word_of_int (xnbVersion h),
                    word_of_int (if hidef h then 1
                                 else if target h = ''a'' \<or> target h = ''i'' then 0x40 else 0)]
                 @ le32 0 @ (if target h = ''a'' \<or> target h = ''i'' then le32 0 else [])"
proof -
  define flags :: int where
    "flags = (if hidef h then 1
              else js_or 0 (if (target h = ''a'' \<or> target h = ''i'') \<and> (target h = ''a'' \<or> target h = ''i'')
                            then COMPRESSED_LZ4_MASK else 0))"
  have flags: "flags = (if hidef h then 1 else if target h = ''a'' \<or> target h = ''i'' then 0x40 else 0)"
    by (simp add: flags_def js_or_def ToInt32_def COMPRESSED_LZ4_MASK_def)
  have w0: "bytePosition (BinaryWriter n) \<le> length (buffer (BinaryWriter n))"
           "take (bytePosition (BinaryWriter n)) (buffer (BinaryWriter n)) = []"
    by (simp_all add: BinaryWriter_def)
  obtain w1 where w1: "writeBytes (encode ''XNB'') (BinaryWriter n) = Inr w1"
      "bytePosition w1 \<le> length (buffer w1)"
      "take (bytePosition w1) (buffer w1) = encode ''XNB''"
    using writeBytes_written [OF w0(1), of "encode ''XNB''"] w0(2) by auto
  obtain w2 where w2: "writeBytes (encode (target h)) w1 = Inr w2"
      "bytePosition w2 \<le> length (buffer w2)"
      "take (bytePosition w2) (buffer w2) = encode ''XNB'' @ encode (target h)"
    using writeBytes_written [OF w1(2), of "encode (target h)"] w1(3) by auto
  obtain w3 where w3: "writeByte (xnbVersion h) w2 = Inr w3"
      "bytePosition w3 \<le> length (buffer w3)"
      "take (bytePosition w3) (buffer w3)
         = encode ''XNB'' @ encode (target h) @ [word_of_int (xnbVersion h)]"
    using writeByte_written [OF w2(2) assms] w2(3) by auto
  have fr: "0 \<le> flags" "flags \<le> 255" by (simp_all add: flags)
  obtain w4 where w4: "writeByte flags w3 = Inr w4"
      "bytePosition w4 \<le> length (buffer w4)"
      "take (bytePosition w4) (buffer w4)
         = encode ''XNB'' @ encode (target h) @ [word_of_int (xnbVersion h)] @ [word_of_int flags]"
    using writeByte_written [OF w3(2) fr] w3(3) by auto
  obtain w5 where w5: "writeUInt32 0 w4 = Inr w5"
      "bytePosition w5 \<le> length (buffer w5)"
      "take (bytePosition w5) (buffer w5)
         = encode ''XNB'' @ encode (target h) @ [word_of_int (xnbVersion h)] @ [word_of_int flags]
           @ le32 0"
    using writeUInt32_written [OF w4(2), of 0] w4(3) by auto
  obtain w6 where w6: "writeUInt32 0 w5 = Inr w6"
      "bytePosition w6 \<le> length (buffer w6)"
      "take (bytePosition w6) (buffer w6)
         = encode ''XNB'' @ encode (target h) @ [word_of_int (xnbVersion h)] @ [word_of_int flags]
           @ le32 0 @ le32 0"
    using writeUInt32_written [OF w5(2), of 0] w5(3) by auto
  have p: "pack_header n h = (if target h = ''a'' \<or> target h = ''i'' then Inr w6 else Inr w5)"
    using w1(1) w2(1) w3(1) w4(1) w5(1) w6(1)
    by (simp add: pack_header_def Let_def flags_def)
  show ?thesis
  proof (cases "target h = ''a'' \<or> target h = ''i''")
    case True
    then show ?thesis using p w6 flags by auto
  next
    case False
    then show ?thesis using p w5 flags by auto
  qed
qed

lemma magic_chars: "toString [0x58, 0x4E, 0x42] = ''XNB''"
  by (simp add: toString_def char_of_def bit_iff_odd)

lemma utf8_replace_single:
  "utf8_replace [b] = (if b < 0x80 then [b] else replacement_character)"
  by (simp add: between_def)

text \<open>What \<open>readChars(1)\<close> gives: an ASCII character or U+FFFD.\<close>

lemma toString_single:
  "toString [b] = (if b < 0x80 then [char_of (unat b)]
                   else map (\<lambda>b. char_of (unat b)) replacement_character)"
  by (simp add: toString_def utf8_replace_single)

lemma parseHeader_bytes:
  assumes "buffer r = 0x58 # 0x4E # 0x42 # t # v # f # rest"
  shows "parseHeader (r\<lparr>bytePosition := 0\<rparr>)
         = Inr (\<lparr>target = toLowerCase (toString [t]),
                 xnbVersion = uint v,
                 hidef = (js_and (uint f) HIDEF_MASK \<noteq> 0),
                 compressed =
                   ((if js_and (uint f) COMPRESSED_LZX_MASK \<noteq> 0
                     then js_and (uint f) COMPRESSED_LZX_MASK
                     else js_and (uint f) COMPRESSED_LZ4_MASK) \<noteq> 0),
                 compressionType =
                   (if js_and (uint f) COMPRESSED_LZX_MASK \<noteq> 0 then COMPRESSED_LZX_MASK
                    else if js_and (uint f) COMPRESSED_LZ4_MASK \<noteq> 0 then COMPRESSED_LZ4_MASK
                    else 0)\<rparr>,
                r\<lparr>bytePosition := 6\<rparr>)"
  using assms magic_chars
  by (simp add: parseHeader_def readChars_def readByte_def read_def seek_def readUInt8_def Let_def)

lemma toString_encode:
  assumes "(of_char c :: nat) < 128"
  shows "toString [of_nat (of_char c)] = [c]"
proof -
  have u: "unat (of_nat (of_char c) :: byte) = of_char c"
    by (simp add: unat_of_nat)
  have "(of_nat (of_char c) :: byte) < 0x80"
    using assms by (simp add: word_less_nat_alt u)
  then show ?thesis
    by (simp add: toString_single u)
qed

text \<open>
  The header that \<open>parseHeader\<close> reads from what \<open>pack\<close> wrote, for a target of one ASCII
  character.
\<close>

lemma parse_pack_header:
  assumes "target h = [t]" "0 \<le> xnbVersion h" "xnbVersion h \<le> 255"
    and ascii: "(of_char t :: nat) < 128"
  shows "\<exists>w. pack_header n h = Inr w
           \<and> buffer w ! 5 = (if hidef h then 1 else if t = CHR ''a'' \<or> t = CHR ''i'' then 0x40 else 0)
           \<and> parseHeader (w\<lparr>bytePosition := 0\<rparr>)
               = Inr (\<lparr>target = toLowerCase [t],
                       xnbVersion = xnbVersion h,
                       hidef = hidef h,
                       compressed = (\<not> hidef h \<and> (t = CHR ''a'' \<or> t = CHR ''i'')),
                       compressionType =
                         (if \<not> hidef h \<and> (t = CHR ''a'' \<or> t = CHR ''i'') then 0x40 else 0)\<rparr>,
                      w\<lparr>bytePosition := 6\<rparr>)"
proof -
  define f :: int where
    "f = (if hidef h then 1 else if t = CHR ''a'' \<or> t = CHR ''i'' then 0x40 else 0)"
  obtain w where w: "pack_header n h = Inr w"
    and bytes: "take (bytePosition w) (buffer w)
               = encode ''XNB'' @ encode (target h)
                 @ [word_of_int (xnbVersion h), word_of_int f]
                 @ le32 0 @ (if target h = ''a'' \<or> target h = ''i'' then le32 0 else [])"
    using pack_header_written [OF assms(2,3), of n] assms(1) by (auto simp: f_def)
  define rest where
    "rest = le32 0 @ (if target h = ''a'' \<or> target h = ''i'' then le32 0 else [])
            @ drop (bytePosition w) (buffer w)"
  have "buffer w = take (bytePosition w) (buffer w) @ drop (bytePosition w) (buffer w)"
    by simp
  then have b: "buffer w = 0x58 # 0x4E # 0x42 # of_nat (of_char t) # word_of_int (xnbVersion h)
                             # word_of_int f # rest"
    by (simp add: bytes rest_def encode_def assms(1))
  have v: "uint (word_of_int (xnbVersion h) :: byte) = xnbVersion h"
    using assms(2,3) by (simp add: uint_word_of_int)
  have fl: "uint (word_of_int f :: byte) = f"
    by (simp add: f_def uint_word_of_int)
  have masks: "(js_and f 0x1 \<noteq> 0) = hidef h"
      "js_and f 0x80 = 0"
      "(js_and f 0x40 = 0) = (hidef h \<or> \<not> (t = CHR ''a'' \<or> t = CHR ''i''))"
    by (simp_all add: f_def js_and_def ToInt32_def)
  have b5: "buffer w ! 5
              = (if hidef h then 1 else if t = CHR ''a'' \<or> t = CHR ''i'' then 0x40 else 0)"
    by (simp add: b f_def)
  have ph: "parseHeader (w\<lparr>bytePosition := 0\<rparr>)
               = Inr (\<lparr>target = toLowerCase [t],
                       xnbVersion = xnbVersion h,
                       hidef = hidef h,
                       compressed = (\<not> hidef h \<and> (t = CHR ''a'' \<or> t = CHR ''i'')),
                       compressionType =
                         (if \<not> hidef h \<and> (t = CHR ''a'' \<or> t = CHR ''i'') then 0x40 else 0)\<rparr>,
                      w\<lparr>bytePosition := 6\<rparr>)"
    unfolding parseHeader_bytes [OF b] v fl toString_encode [OF ascii]
    by (simp add: HIDEF_MASK_def COMPRESSED_LZX_MASK_def COMPRESSED_LZ4_MASK_def masks)
  show ?thesis
    using w b5 ph by blast
qed

text \<open>
  C2.  For the header \<open>{target: 'a', xnbVersion: 5, hidef: true}\<close>, whose target selects
  LZ4, \<open>pack\<close> writes the flags byte \<open>0x01\<close> at offset 5: the LZ4 bit is missing, and
  \<open>parseHeader\<close> reads the header back as not compressed.
\<close>

theorem pack_header_hidef_lz4_flags:
  "\<exists>w. pack_header jsonLength \<lparr>target = ''a'', xnbVersion = 5, hidef = True, compressed = True,
                                compressionType = 0x40\<rparr> = Inr w
       \<and> buffer w ! 5 = 0x01
       \<and> parseHeader (w\<lparr>bytePosition := 0\<rparr>)
           = Inr (\<lparr>target = ''a'', xnbVersion = 5, hidef = True, compressed = False,
                   compressionType = 0\<rparr>, w\<lparr>bytePosition := 6\<rparr>)"
  using parse_pack_header [of "\<lparr>target = ''a'', xnbVersion = 5, hidef = True, compressed = True,
                                compressionType = 0x40\<rparr>" "CHR ''a''" jsonLength]
  by (simp add: toLowerCase_def)

section \<open>The frames of decompress\<close>

lemma readByte_eq:
  "bytePosition r < length (buffer r)
   \<Longrightarrow> readByte r = Inr (uint (buffer r ! bytePosition r), r\<lparr>bytePosition := bytePosition r + 1\<rparr>)"
  by (simp add: readByte_def read_def seek_def readUInt8_def Let_def
           Cons_nth_drop_Suc [symmetric])

lemma js_or_shl_8:
  assumes "0 \<le> l" "l < 256" "0 \<le> m" "m < 256"
  shows "js_or (js_shl l 8) m = 256 * l + m"
proof -
  have s: "js_shl l 8 = l * 256"
    using assms by (simp add: js_shl_def ToInt32_ident push_bit_eq_mult)
  have t: "take_bit 8 m = m" using assms by (simp add: take_bit_int_eq_self)
  have "(l * 256) OR m = take_bit 8 m OR push_bit 8 l"
    by (simp add: t push_bit_eq_mult or.commute)
  also have "\<dots> = take_bit 8 m + push_bit 8 l"
    using concat_bit_eq [of 8 m l] by (simp add: concat_bit_def)
  finally have "(l * 256) OR m = 256 * l + m"
    by (simp add: t push_bit_eq_mult)
  then show ?thesis
    using assms by (simp add: js_or_def s ToInt32_ident)
qed

lemma readLZXInt16_eq:
  assumes "bytePosition r + 2 \<le> length (buffer r)"
  shows "readLZXInt16 r
         = Inr (256 * uint (buffer r ! bytePosition r) + uint (buffer r ! (bytePosition r + 1)),
                r\<lparr>bytePosition := bytePosition r + 2\<rparr>)"
proof -
  have b: "0 \<le> uint (x::byte)" "uint (x::byte) < 256" for x
    using uint_bounded [of x] by simp_all
  show ?thesis
    using assms
    by (simp add: readLZXInt16_def readByte_eq js_or_shl_8 b)
qed

lemma readByte_advance:
  "bytePosition r < length (buffer r)
   \<Longrightarrow> readByte r = Inr (uint (buffer r ! bytePosition r), advance 1 r)"
  by (simp add: readByte_eq advance_def)

lemma readLZXInt16_advance:
  assumes "bytePosition r + k + 2 \<le> length (buffer r)"
  shows "readLZXInt16 (advance k r) = Inr (swapped16 r k, advance (k + 2) r)"
  using assms readLZXInt16_eq [of "advance k r"]
  by (simp add: advance_def swapped16_def add.assoc)

lemma rewind_advance_1:
  "(advance (Suc 0) r)\<lparr>bytePosition := bytePosition (advance (Suc 0) r) - Suc 0\<rparr> = advance 0 r"
  by (simp add: advance_def)

lemma readByte_past:
  "length (buffer r) \<le> bytePosition r
   \<Longrightarrow> readByte r = Inl (BufferSeekOutOfBounds (bytePosition r + 1) (length (buffer r)))"
  by (simp add: readByte_def read_def seek_def Let_def)

lemma readLZXInt16_past:
  assumes "bytePosition r \<le> length (buffer r)" "length (buffer r) < bytePosition r + 2"
  shows "readLZXInt16 r
         = Inl (BufferSeekOutOfBounds (length (buffer r) + 1) (length (buffer r)))"
proof (cases "bytePosition r = length (buffer r)")
  case True
  then show ?thesis by (simp add: readLZXInt16_def readByte_past)
next
  case False
  with assms have l: "length (buffer r) = bytePosition r + 1" by simp
  then have p: "bytePosition r < length (buffer r)" by simp
  show ?thesis
    using l by (simp add: readLZXInt16_def readByte_eq [OF p] readByte_past)
qed

lemma swapped16_range: "0 \<le> swapped16 r k \<and> swapped16 r k < 0x10000"
proof -
  have b: "0 \<le> uint (x::byte)" "uint (x::byte) < 256" for x
    using uint_bounded [of x] by simp_all
  show ?thesis
    unfolding swapped16_def
    using b [of "buffer r ! (bytePosition r + k)"] b [of "buffer r ! (bytePosition r + k + 1)"]
    by simp
qed

text \<open>
  C4.  \<open>decompress\<close> is the loop started with \<open>pos = 0\<close> and nothing decompressed, and one
  round of the loop is as follows, in terms of the bytes at the position of the reader.
  Once \<open>pos\<close> has reached \<open>compressedTodo\<close> the loop returns what it has, wherever the reader
  is.  Otherwise it reads the flag byte, and \<open>readByte\<close> throws when the reader is at the
  end of the buffer.  With the flag \<open>0xFF\<close> the frame size and then the block size are the
  byte-swapped 16-bit integers after the flag and \<open>pos\<close> advances by 5; with any other flag
  the reader steps back, the block size is the byte-swapped integer that starts with the
  flag byte, the frame size is \<open>0x8000\<close> and \<open>pos\<close> advances by 2; a buffer that ends inside
  these 5 or 2 bytes makes the read that leaves it throw.  A size of 0 ends the loop with
  the bytes decompressed so far; otherwise the bytes of the frame are appended and the
  loop goes on with \<open>pos\<close> advanced by the block size.  The sizes are 16-bit integers, below
  \<open>0x10000\<close>: the check that throws the invalid-size error for a size over \<open>0x10000\<close> is
  there, and no buffer makes it fail.
\<close>

theorem decompress_frames:
  "decompress lzx new_Lzx r compressedTodo = decompress_loop lzx compressedTodo 0 new_Lzx r []
   \<and> decompress_loop lzx compressedTodo pos st r out =
    (if \<not> pos < compressedTodo then Inr (out, r)
     else if length (buffer r) \<le> bytePosition r
     then Inl (BufferSeekOutOfBounds (bytePosition r + 1) (length (buffer r)))
     else
       (let flag = buffer r ! bytePosition r;
            n = (if flag = 0xFF then 5 else 2);
            frameSize = (if flag = 0xFF then swapped16 r 1 else 0x8000);
            blockSize = (if flag = 0xFF then swapped16 r 3 else swapped16 r 0)
        in if length (buffer r) < bytePosition r + n
           then Inl (BufferSeekOutOfBounds (length (buffer r) + 1) (length (buffer r)))
           else if blockSize = 0 \<or> frameSize = 0 then Inr (out, advance n r)
           else (case lzx st (advance n r) frameSize blockSize of
                   Inl e \<Rightarrow> Inl e
                 | Inr (bytes, st', r2) \<Rightarrow>
                     decompress_loop lzx compressedTodo (pos + int n + blockSize) st' r2
                       (out @ bytes))))
   \<and> swapped16 r k < 0x10000"
proof -
  let ?p = "bytePosition r" and ?n = "length (buffer r)"
  have A: "decompress lzx new_Lzx r compressedTodo
           = decompress_loop lzx compressedTodo 0 new_Lzx r []"
    by (simp add: decompress_def)
  have B: "decompress_loop lzx compressedTodo pos st r out = Inr (out, r)"
    if "\<not> pos < compressedTodo"
    using that by (subst decompress_loop.simps) simp
  have C: "decompress_loop lzx compressedTodo pos st r out
           = Inl (BufferSeekOutOfBounds (?p + 1) ?n)"
    if "pos < compressedTodo" "?n \<le> ?p"
    using that by (subst decompress_loop.simps) (simp add: readByte_past)
  have s16: "\<not> 0x10000 < swapped16 r j" for j
    using swapped16_range [of r j] by simp
  have D: "decompress_loop lzx compressedTodo pos st r out =
       (if ?n < ?p + 5 then Inl (BufferSeekOutOfBounds (?n + 1) ?n)
        else if swapped16 r 3 = 0 \<or> swapped16 r 1 = 0 then Inr (out, advance 5 r)
        else (case lzx st (advance 5 r) (swapped16 r 1) (swapped16 r 3) of
                Inl e \<Rightarrow> Inl e
              | Inr (bytes, st', r2) \<Rightarrow>
                  decompress_loop lzx compressedTodo (pos + 5 + swapped16 r 3) st' r2
                    (out @ bytes)))"
    if pt: "pos < compressedTodo" and lt: "?p < ?n" and ff: "buffer r ! ?p = 0xFF"
  proof -
    have h1: "readByte r = Inr (255, advance (Suc 0) r)"
      using readByte_advance [of r] lt ff by simp
    consider (a) "?n < ?p + 3" | (b) "?p + 3 \<le> ?n" "?n < ?p + 5" | (c) "?p + 5 \<le> ?n"
      by linarith
    then show ?thesis
    proof cases
      case a
      have "readLZXInt16 (advance (Suc 0) r) = Inl (BufferSeekOutOfBounds (?n + 1) ?n)"
        using readLZXInt16_past [of "advance (Suc 0) r"] a lt by (simp add: advance_def)
      then show ?thesis
        using a pt by (subst decompress_loop.simps) (simp add: h1)
    next
      case b
      have h2: "readLZXInt16 (advance (Suc 0) r) = Inr (swapped16 r 1, advance 3 r)"
        using readLZXInt16_advance [of r 1] b by (simp add: numeral_3_eq_3)
      have "readLZXInt16 (advance 3 r) = Inl (BufferSeekOutOfBounds (?n + 1) ?n)"
        using readLZXInt16_past [of "advance 3 r"] b by (simp add: advance_def)
      then show ?thesis
        using b pt by (subst decompress_loop.simps) (simp add: h1 h2)
    next
      case c
      have h2: "readLZXInt16 (advance (Suc 0) r) = Inr (swapped16 r 1, advance 3 r)"
        using readLZXInt16_advance [of r 1] c by (simp add: numeral_3_eq_3)
      have h3: "readLZXInt16 (advance 3 r) = Inr (swapped16 r 3, advance 5 r)"
        using readLZXInt16_advance [of r 3] c by simp
      show ?thesis
        using c pt by (subst decompress_loop.simps) (simp add: h1 h2 h3 s16)
    qed
  qed
  have E: "decompress_loop lzx compressedTodo pos st r out =
       (if ?n < ?p + 2 then Inl (BufferSeekOutOfBounds (?n + 1) ?n)
        else if swapped16 r 0 = 0 then Inr (out, advance 2 r)
        else (case lzx st (advance 2 r) 0x8000 (swapped16 r 0) of
                Inl e \<Rightarrow> Inl e
              | Inr (bytes, st', r2) \<Rightarrow>
                  decompress_loop lzx compressedTodo (pos + 2 + swapped16 r 0) st' r2
                    (out @ bytes)))"
    if pt: "pos < compressedTodo" and lt: "?p < ?n" and nf: "buffer r ! ?p \<noteq> 0xFF"
  proof -
    have nf': "uint (buffer r ! ?p) \<noteq> 255"
      using nf by (simp add: word_uint_eq_iff)
    have h1: "readByte r = Inr (uint (buffer r ! ?p), advance (Suc 0) r)"
      using readByte_advance [of r] lt by simp
    show ?thesis
    proof (cases "?n < ?p + 2")
      case True
      have "readLZXInt16 (advance 0 r) = Inl (BufferSeekOutOfBounds (?n + 1) ?n)"
        using readLZXInt16_past [of "advance 0 r"] True lt by (simp add: advance_def)
      then show ?thesis
        using True pt nf'
        by (subst decompress_loop.simps) (simp add: h1 rewind_advance_1)
    next
      case False
      have h2: "readLZXInt16 (advance 0 r) = Inr (swapped16 r 0, advance 2 r)"
        using readLZXInt16_advance [of r 0] False by (simp add: numeral_2_eq_2)
      show ?thesis
        using False pt nf'
        by (subst decompress_loop.simps) (simp add: h1 h2 rewind_advance_1 s16)
    qed
  qed
  have F: "swapped16 r k < 0x10000"
    using swapped16_range [of r k] by simp
  show ?thesis
    apply (intro conjI A F)
    apply (cases "pos < compressedTodo")
     apply (cases "?p < ?n")
      apply (cases "buffer r ! ?p = 0xFF")
       apply (simp add: D Let_def cong: sum.case_cong)
      apply (simp add: E Let_def cong: sum.case_cong)
     apply (simp add: C)
    apply (simp add: B)
    done
qed

text \<open>
  A run of \<open>decompress\<close> on twelve bytes, with a decoder that returns the bytes of the
  block as they are, counts the frames in its state and leaves the reader after the block.
  The first frame has the flag \<open>0xFF\<close>, frame size 2 and block size 3; the second has no
  flag and block size 2; then \<open>pos\<close> is 12 and the loop ends.  On the first eight bytes
  alone the second round finds no flag byte and throws.
\<close>

theorem decompress_frames_witness:
  "decompress
     (\<lambda>st r frameSize blockSize.
        Inr (take (nat blockSize) (drop (bytePosition r) (buffer r)), Suc st,
             advance (nat blockSize) r))
     0 (LzxReader [0xFF, 0x00, 0x02, 0x00, 0x03, 1, 2, 3, 0x00, 0x02, 8, 9]) 12
   = Inr ([1, 2, 3, 8, 9],
          \<lparr>buffer = [0xFF, 0x00, 0x02, 0x00, 0x03, 1, 2, 3, 0x00, 0x02, 8, 9],
             bytePosition = 12, bitOffset = 0\<rparr>)
   \<and> decompress
     (\<lambda>st r frameSize blockSize.
        Inr (take (nat blockSize) (drop (bytePosition r) (buffer r)), Suc st,
             advance (nat blockSize) r))
     0 (LzxReader [0xFF, 0x00, 0x02, 0x00, 0x03, 1, 2, 3]) 12
   = Inl (BufferSeekOutOfBounds 9 8)"
  by (simp add: LzxReader_def decompress_frames [THEN conjunct1]
                decompress_frames [THEN conjunct2, THEN conjunct1]
                swapped16_def advance_def Let_def)

section \<open>Doubles that are exact\<close>

lemma floor_rat_numeral: "\<lfloor>(numeral a :: rat) / numeral b\<rfloor> = numeral a div numeral b"
  using floor_divide_of_int_eq [of "numeral a" "numeral b", where ?'a = rat] by simp

lemma ceiling_rat_numeral: "\<lceil>(numeral a :: rat) / numeral b\<rceil> = - ((- numeral a) div numeral b)"
  using floor_divide_of_int_eq [of "- numeral a" "numeral b", where ?'a = rat]
  by (simp add: ceiling_def)

lemmas number_eval = round_number_def fl_def ilog2_def bitlen.simps pow2_def round_half_even_def
  trunc_def Let_def floor_rat_numeral ceiling_rat_numeral elem_def store_def

lemma bitlen_le: "0 \<le> n \<Longrightarrow> n < 2 ^ k \<Longrightarrow> bitlen n \<le> k"
proof (induction k arbitrary: n)
  case 0
  then have "n = 0" by simp
  then show ?case by (simp add: bitlen.simps)
next
  case (Suc k)
  show ?case
  proof (cases "n \<le> 0")
    case True
    then show ?thesis by (simp add: bitlen.simps)
  next
    case False
    have "n div 2 < 2 ^ k" using Suc.prems by auto
    moreover have "0 \<le> n div 2" using Suc.prems by auto
    ultimately have "bitlen (n div 2) \<le> k" by (rule Suc.IH [rotated])
    then show ?thesis using False by (subst bitlen.simps) simp
  qed
qed

lemma bitlen_pos: "0 < n \<Longrightarrow> 0 < bitlen n"
  by (subst bitlen.simps) simp

lemma round_half_even_of_int [simp]: "round_half_even (of_int k) = k"
  by (simp add: round_half_even_def)

text \<open>A number \<open>M / 2^j\<close> that is at least 1 and has a numerator below \<open>2^53\<close> is a double.\<close>

lemma fl_dyadic:
  assumes "2 ^ j \<le> M" "M < 2 ^ 53"
  shows "fl (of_int M / 2 ^ j) = of_int M / 2 ^ j"
proof -
  define x :: rat where "x = of_int M / 2 ^ j"
  define F where "F = \<lfloor>x\<rfloor>"
  have Mpos: "0 < M" using assms(1) by (smt (verit) zero_less_power)
  have x1: "1 \<le> x" using assms(1) by (simp add: x_def le_divide_eq of_int_le_iff [symmetric] del: of_int_le_iff)
  have xpos: "0 < x" using x1 by simp
  have j53: "j \<le> 53"
  proof (rule ccontr)
    assume "\<not> j \<le> 53"
    then have "(2::int) ^ 53 \<le> 2 ^ j" by (intro power_increasing) auto
    with assms show False by simp
  qed
  have F1: "1 \<le> F" using x1 by (simp add: F_def)
  have "M < 2 ^ (53 - j) * 2 ^ j"
    using assms(2) j53 by (simp add: power_add [symmetric])
  then have "(of_int M :: rat) < of_int (2 ^ (53 - j) * 2 ^ j)"
    by (simp only: of_int_less_iff)
  then have "x < of_int (2 ^ (53 - j))"
    by (simp add: x_def pos_divide_less_eq)
  then have Flt: "F < 2 ^ (53 - j)"
    by (simp add: F_def floor_less_iff)
  have bl: "bitlen F \<le> 53 - j" using bitlen_le [of F "53 - j"] F1 Flt by simp
  have bp: "0 < bitlen F" using bitlen_pos F1 by simp
  define k where "k = 53 - bitlen F"
  have kj: "j \<le> k" using bl j53 by (simp add: k_def)
  have il: "ilog2 \<bar>x\<bar> - 52 = - int k"
    using x1 bl bp j53 by (simp add: ilog2_def F_def [symmetric] k_def)
  have e: "max (ilog2 \<bar>x\<bar> - 52) (- 1074) = - int k"
    unfolding il using bp by (simp add: k_def)
  have p: "pow2 (- int k) = 1 / 2 ^ k"
    by (cases "k = 0") (simp_all add: pow2_def)
  have pk: "(2::rat) ^ k = 2 ^ (k - j) * 2 ^ j"
    using kj by (simp add: power_add [symmetric])
  have "x / pow2 (- int k) = of_int M * 2 ^ k / 2 ^ j"
    by (simp add: p x_def)
  also have "\<dots> = of_int (M * 2 ^ (k - j))"
    by (simp add: pk)
  finally have sc: "\<bar>x\<bar> / pow2 (- int k) = of_int (M * 2 ^ (k - j))"
    using xpos by simp
  have r: "round_half_even (of_int M * 2 ^ (k - j)) = M * 2 ^ (k - j)"
    using round_half_even_of_int [of "M * 2 ^ (k - j)"] by simp
  have "fl x = of_int (M * 2 ^ (k - j)) * pow2 (- int k)"
    using xpos unfolding fl_def Let_def e sc by (simp add: r)
  also have "\<dots> = of_int M * 2 ^ (k - j) / 2 ^ k"
    by (simp add: p)
  also have "\<dots> = x"
    by (simp add: x_def pk)
  finally show ?thesis by (simp add: x_def)
qed

lemma fl_0 [simp]: "fl 0 = 0"
  by (simp add: fl_def)

lemma fl_of_nonneg_int:
  assumes "0 \<le> n" "n < 2 ^ 53"
  shows "fl (of_int n) = of_int n"
proof (cases "n = 0")
  case True
  then show ?thesis by simp
next
  case False
  then have "2 ^ 0 \<le> n" using assms(1) by simp
  from fl_dyadic [OF this assms(2)] show ?thesis by simp
qed



section \<open>Texture2DReader: the alpha of the pixels\<close>










lemma unpremultiplied_pos_0: "0 < c \<Longrightarrow> unpremultiplied c 0 = 255"
  by (simp add: unpremultiplied_def trunc_def)





lemma trunc_of_int [simp]: "trunc (of_int k) = k"
  by (simp add: trunc_def)


lemma premultiply_from_length [simp]: "length (premultiply_from i d) = length d"
proof (induction i d rule: premultiply_from.induct)
  case (1 i d)
  show ?case
  proof (cases "i < length d")
    case True
    then show ?thesis
      using "1.IH" [OF True refl refl refl refl]
      by (subst premultiply_from.simps) (simp add: Let_def)
  next
    case False
    then show ?thesis by (subst premultiply_from.simps) simp
  qed
qed















section \<open>SFDItemReader: a repeated pixel\<close>

text \<open>
  C5.  A true flag does not store the register unchanged: with the colour table
  \<open>[(1, 2, 3, 4)]\<close>, the flags and index \<open>false, 0, true\<close> give the pixels \<open>(1, 2, 3, 4)\<close> and
  \<open>(1, 3, 2, 4)\<close>: the repeated pixel has green and blue exchanged.
\<close>

theorem readPixels_repeat_swaps_green_blue:
  "readPixels [new_Color 1 2 3 4] 2 (Some (new_Color 0 0 0 0)) True
     \<lparr>buffer = [0, 0, 1], bytePosition = 0\<rparr>
   = Inr ([Some \<lparr>red = 1, green = 2, blue = 3, alpha = 4\<rparr>,
           Some \<lparr>red = 1, green = 3, blue = 2, alpha = 4\<rparr>],
          False, \<lparr>buffer = [0, 0, 1], bytePosition = 3\<rparr>)"
  by (simp add: numeral_2_eq_2 reader_eval new_Color_def)

section \<open>SFDAnimationReader: the type of a part\<close>

text \<open>
  C6.  The stored type is not an integer for every id: for the id 75 it is 1.5 (and the
  local id is 25); for the id -75 it is -2.5.
\<close>

theorem part_type_75_not_integer:
  "part_type 75 = Num (3 / 2) \<and> \<not> isInteger (part_type 75) \<and> part_localId 75 = Num 25
   \<and> part_type (- 75) = Num (- (5 / 2))"
  by (simp add: part_type_def part_localId_def number_eval)

end
